theory Spec2Isabelle
  imports Complex_Main "HOL-Library.Word"
begin

section \<open>Values exchanged with the libraries\<close>

text \<open>
  The viewer is Python on top of pydicom, numpy and Tk. Intensities, spacings and window
  parameters are Python or numpy floats; they are modelled as real numbers, so every
  statement below is about exact arithmetic and says nothing about rounding; the
  windowing arithmetic of \<open>update_image\<close>, whose result depends on the rounding, is
  not modelled. Pixel
  coordinates, indices and raw samples are Python integers (\<open>int\<close>); element counts
  are \<open>nat\<close>. An exception is a value of \<open>py_error\<close>, and a function that can
  raise returns a sum with the exception on the left.
\<close>

datatype py_error =
    ReadError \<comment> \<open>any exception of \<open>pydicom.dcmread\<close> or of the pixel decoder\<close>
  | IndexError
  | KeyError
  | TypeError
  | BroadcastError \<comment> \<open>numpy's ValueError: could not broadcast input array\<close>
  | EmptyReduction \<comment> \<open>numpy's ValueError: zero-size array to reduction operation\<close>
  | ZeroDivisionError

text \<open>A two-dimensional numpy array: its shape and its rows.\<close>

record 'a array2 =
  nrows :: nat
  ncols :: nat
  cells :: "'a list list"

text \<open>The three-dimensional array \<open>full_hu_volume\<close>, axes (slice, row, column).\<close>

record array3 =
  nslices :: nat
  vrows :: nat
  vcols :: nat
  voxels :: "real list list list"

text \<open>
  What the code reads of a pydicom dataset. An attribute that may be missing is an option
  (\<open>ds.get\<close> supplies the default); \<open>pixel_array\<close> may raise.
\<close>

record dataset =
  PixelData :: bool
  SeriesInstanceUID :: "string option"
  ImagePositionPatient :: "real list option"
  ds_Rows :: "nat option"
  ds_Columns :: "nat option"
  ds_SliceThickness :: "real option"
  ds_PixelSpacing :: "real list option"
  ds_RescaleIntercept :: "real option"
  ds_RescaleSlope :: "real option"
  pixel_array :: "py_error + int array2"

text \<open>
  The dictionary \<open>header_info\<close> is either empty or holds the seven keys that
  \<open>_process_data\<close> stores at once; \<open>MinHU\<close> and \<open>MaxHU\<close> are added at its end.
\<close>

record header =
  Rows :: nat
  Columns :: nat
  SliceThickness :: real
  PixelSpacing :: "real list"
  NumSlices :: nat
  RescaleIntercept :: real
  RescaleSlope :: real
  MinHU :: "real option"
  MaxHU :: "real option"

record loader =
  series_data :: "dataset list"
  header_info :: "header option"
  is_loaded :: bool
  full_hu_volume :: "array3 option"

definition init_loader :: loader where
  "init_loader = \<lparr>series_data = [], header_info = None, is_loaded = False,
                   full_hu_volume = None\<rparr>"

section \<open>Reslicing and aspect ratio\<close>

text \<open>An index on an axis of extent \<open>n\<close>: numpy counts a negative index from the end.\<close>

definition np_index :: "nat \<Rightarrow> int \<Rightarrow> py_error + nat" where
  "np_index n i =
     (if 0 \<le> i \<and> i < int n then Inr (nat i)
      else if - int n \<le> i \<and> i < 0 then Inr (nat (int n + i))
      else Inl IndexError)"

definition get_slice_data :: "loader \<Rightarrow> string \<Rightarrow> int \<Rightarrow> py_error + real array2 option" where
  "get_slice_data s view_plane index =
     (if \<not> is_loaded s then Inr None
      else if view_plane = ''Axial'' then
        (case full_hu_volume s of None \<Rightarrow> Inl TypeError
         | Some volume \<Rightarrow>
             (case np_index (nslices volume) index of Inl e \<Rightarrow> Inl e
              | Inr k \<Rightarrow> Inr (Some \<lparr>nrows = vrows volume, ncols = vcols volume,
                                     cells = voxels volume ! k\<rparr>)))
      else if view_plane = ''Coronal'' then
        (case full_hu_volume s of None \<Rightarrow> Inl TypeError
         | Some volume \<Rightarrow>
             (case np_index (vrows volume) index of Inl e \<Rightarrow> Inl e
              | Inr r \<Rightarrow> Inr (Some \<lparr>nrows = nslices volume, ncols = vcols volume,
                                     cells = map (\<lambda>sl. sl ! r) (voxels volume)\<rparr>)))
      else if view_plane = ''Sagittal'' then
        (case full_hu_volume s of None \<Rightarrow> Inl TypeError
         | Some volume \<Rightarrow>
             (case np_index (vcols volume) index of Inl e \<Rightarrow> Inl e
              | Inr c \<Rightarrow> Inr (Some \<lparr>nrows = nslices volume, ncols = vrows volume,
                                     cells = map (map (\<lambda>row. row ! c)) (voxels volume)\<rparr>)))
      else Inr None)"

definition list_item :: "'a list \<Rightarrow> nat \<Rightarrow> py_error + 'a" where
  "list_item xs i = (if i < length xs then Inr (xs ! i) else Inl IndexError)"

definition py_truediv :: "real \<Rightarrow> real \<Rightarrow> py_error + real" where
  "py_truediv a b = (if b = 0 then Inl ZeroDivisionError else Inr (a / b))"

definition get_aspect_ratio :: "loader \<Rightarrow> string \<Rightarrow> py_error + real" where
  "get_aspect_ratio s view_plane =
     (if \<not> is_loaded s then Inr 1
      else case header_info s of None \<Rightarrow> Inl KeyError
      | Some info \<Rightarrow>
          (case list_item (PixelSpacing info) 0 of Inl e \<Rightarrow> Inl e
           | Inr sy \<Rightarrow>
               (case list_item (PixelSpacing info) 1 of Inl e \<Rightarrow> Inl e
                | Inr sx \<Rightarrow>
                    (let sz = SliceThickness info in
                     if view_plane = ''Axial'' then py_truediv sx sy
                     else if view_plane = ''Coronal'' then py_truediv sx sz
                     else if view_plane = ''Sagittal'' then py_truediv sy sz
                     else Inr 1))))"

section \<open>Series resolver\<close>

text \<open>
  \<open>glob\<close> yields the files of the folder in some order; a file is represented by what
  \<open>pydicom.dcmread\<close> does on it: it raises or it returns a dataset.

  \<open>read_candidate\<close> is the body of the \<open>try\<close> in \<open>_sort_dicom_series\<close>: None when the
  file is skipped (it cannot be read, it has no pixel data, or its image position has
  fewer than three components, whose \<open>IndexError\<close> the \<open>except\<close> swallows), otherwise
  the key and the item appended to \<open>series_map[key]\<close>.
\<close>

type_synonym series_item = "real \<times> dataset"

type_synonym series_map = "(string option \<times> series_item list) list"

definition read_candidate :: "py_error + dataset \<Rightarrow> (string option \<times> series_item) option" where
  "read_candidate f =
     (case f of Inl e \<Rightarrow> None
      | Inr ds \<Rightarrow>
          if \<not> PixelData ds then None
          else (let key = SeriesInstanceUID ds in
                case (case ImagePositionPatient ds of None \<Rightarrow> list_item [0, 0, 0] 2
                      | Some p \<Rightarrow> list_item p 2) of
                  Inl e \<Rightarrow> None
                | Inr z_pos \<Rightarrow> Some (key, (z_pos, ds))))"

text \<open>
  The dictionary \<open>series_map\<close> keeps its keys in insertion order, so it is an association
  list: a new key goes to the end, a known key gets the item appended to its list.
\<close>

fun series_map_append :: "string option \<Rightarrow> series_item \<Rightarrow> series_map \<Rightarrow> series_map" where
  "series_map_append key item [] = [(key, [item])]"
| "series_map_append key item ((k, items) # m) =
     (if k = key then (k, items @ [item]) # m
      else (k, items) # series_map_append key item m)"

fun build_series_map :: "(py_error + dataset) list \<Rightarrow> series_map \<Rightarrow> series_map" where
  "build_series_map [] series_map = series_map"
| "build_series_map (f # fs) series_map =
     (case read_candidate f of
        None \<Rightarrow> build_series_map fs series_map
      | Some (key, item) \<Rightarrow> build_series_map fs (series_map_append key item series_map))"

definition series_map_get :: "series_map \<Rightarrow> string option \<Rightarrow> series_item list" where
  "series_map_get m k = (case map_of m k of None \<Rightarrow> [] | Some items \<Rightarrow> items)"

text \<open>Python's \<open>max(iterable, key=...)\<close>: the first element whose key is maximal.\<close>

fun py_max_key :: "('a \<Rightarrow> nat) \<Rightarrow> 'a \<Rightarrow> 'a list \<Rightarrow> 'a" where
  "py_max_key key best [] = best"
| "py_max_key key best (x # xs) = py_max_key key (if key best < key x then x else best) xs"

text \<open>
  \<open>main_series\<close> is the chosen list after \<open>main_series.sort(key=lambda x: x[0])\<close>;
  Python's sort is stable, as \<open>sort_key\<close> is.
\<close>

definition main_series :: "(py_error + dataset) list \<Rightarrow> series_item list" where
  "main_series dcm_files =
     (let series_map = build_series_map dcm_files [] in
      case map fst series_map of [] \<Rightarrow> []
      | k # ks \<Rightarrow>
          (let main_series_uid = py_max_key (\<lambda>k. length (series_map_get series_map k)) k ks
           in sort_key fst (series_map_get series_map main_series_uid)))"

definition sort_dicom_series :: "(py_error + dataset) list \<Rightarrow> dataset list" where
  "sort_dicom_series dcm_files = map snd (main_series dcm_files)"




section \<open>Calibration and volume builder\<close>

definition astype_int16 :: "int \<Rightarrow> int" where
  "astype_int16 v = sint (word_of_int v :: 16 word)"

definition hu_array :: "real \<Rightarrow> real \<Rightarrow> int array2 \<Rightarrow> real array2" where
  "hu_array R_slope R_int pa =
     \<lparr>nrows = nrows pa, ncols = ncols pa,
      cells = map (map (\<lambda>v. real_of_int (astype_int16 v) * R_slope + R_int)) (cells pa)\<rparr>"

definition np_zeros :: "nat \<Rightarrow> nat \<Rightarrow> nat \<Rightarrow> array3" where
  "np_zeros n r c =
     \<lparr>nslices = n, vrows = r, vcols = c, voxels = replicate n (replicate r (replicate c 0))\<rparr>"

text \<open>
  \<open>self.full_hu_volume[i] = hu_array\<close> broadcasts the right-hand side to the shape
  (rows, cols) of a slice: an axis of the same extent is copied, an axis of extent 1 is
  repeated, anything else raises.
\<close>

definition broadcast_rows :: "nat \<Rightarrow> nat \<Rightarrow> real array2 \<Rightarrow> py_error + real list list" where
  "broadcast_rows rows cols a =
     (if (nrows a = rows \<or> nrows a = 1) \<and> (ncols a = cols \<or> ncols a = 1) then
        Inr (let rs = (if ncols a = cols then cells a
                       else map (\<lambda>row. concat (replicate cols row)) (cells a))
             in if nrows a = rows then rs else concat (replicate rows rs))
      else Inl BroadcastError)"

text \<open>
  The loop over \<open>enumerate(sorted_datasets)\<close>. An exception leaves the volume as filled
  so far (left); otherwise the volume and \<open>all_hu_values\<close> are returned.
\<close>

fun fill_volume :: "real \<Rightarrow> real \<Rightarrow> nat \<Rightarrow> dataset list \<Rightarrow> array3 \<Rightarrow> real list list
    \<Rightarrow> (py_error \<times> array3) + (array3 \<times> real list list)" where
  "fill_volume R_slope R_int i [] vol all_hu_values = Inr (vol, all_hu_values)"
| "fill_volume R_slope R_int i (ds # dss) vol all_hu_values =
     (case pixel_array ds of Inl e \<Rightarrow> Inl (e, vol)
      | Inr pa \<Rightarrow>
          (let hu = hu_array R_slope R_int pa in
           case broadcast_rows (vrows vol) (vcols vol) hu of Inl e \<Rightarrow> Inl (e, vol)
           | Inr rs \<Rightarrow>
               fill_volume R_slope R_int (Suc i) dss
                 (vol\<lparr>voxels := (voxels vol)[i := rs]\<rparr>)
                 (all_hu_values @ [concat (cells hu)])))"

definition np_min :: "real list \<Rightarrow> py_error + real" where
  "np_min xs = (case xs of [] \<Rightarrow> Inl EmptyReduction | x # ys \<Rightarrow> Inr (fold min ys x))"

definition np_max :: "real list \<Rightarrow> py_error + real" where
  "np_max xs = (case xs of [] \<Rightarrow> Inl EmptyReduction | x # ys \<Rightarrow> Inr (fold max ys x))"

definition header_of :: "dataset \<Rightarrow> header" where
  "header_of ds0 =
     \<lparr>Rows = (case ds_Rows ds0 of None \<Rightarrow> 0 | Some r \<Rightarrow> r),
      Columns = (case ds_Columns ds0 of None \<Rightarrow> 0 | Some c \<Rightarrow> c),
      SliceThickness = (case ds_SliceThickness ds0 of None \<Rightarrow> 1 | Some t \<Rightarrow> t),
      PixelSpacing = (case ds_PixelSpacing ds0 of None \<Rightarrow> [1, 1] | Some p \<Rightarrow> p),
      NumSlices = 0,
      RescaleIntercept = (case ds_RescaleIntercept ds0 of None \<Rightarrow> 0 | Some b \<Rightarrow> b),
      RescaleSlope = (case ds_RescaleSlope ds0 of None \<Rightarrow> 1 | Some m \<Rightarrow> m),
      MinHU = None, MaxHU = None\<rparr>"

text \<open>
  \<open>_process_data\<close> returns nothing; the model returns the exception that left it, if
  any, and the loader as it stands at that point.
\<close>

definition process_data :: "loader \<Rightarrow> dataset list \<Rightarrow> py_error option \<times> loader" where
  "process_data s sorted_datasets =
     (case sorted_datasets of [] \<Rightarrow> (None, s)
      | ds0 # rest \<Rightarrow>
          (let info = header_of ds0;
               R_int = RescaleIntercept info;
               R_slope = RescaleSlope info;
               rows = Rows info;
               cols = Columns info;
               num_slices = length sorted_datasets;
               s1 = s\<lparr>header_info := Some info,
                       full_hu_volume := Some (np_zeros num_slices rows cols)\<rparr>
           in case fill_volume R_slope R_int 0 sorted_datasets
                     (np_zeros num_slices rows cols) [] of
                Inl (e, vol) \<Rightarrow> (Some e, s1\<lparr>full_hu_volume := Some vol\<rparr>)
              | Inr (vol, all_hu_values) \<Rightarrow>
                  (let info2 = info\<lparr>NumSlices := num_slices\<rparr>;
                       s2 = s1\<lparr>full_hu_volume := Some vol, header_info := Some info2,
                               is_loaded := True\<rparr>
                   in if all_hu_values \<noteq> [] then
                        (case np_min (concat all_hu_values) of
                           Inl e \<Rightarrow> (Some e, s2)
                         | Inr min_hu \<Rightarrow>
                             (case np_max (concat all_hu_values) of
                                Inl e \<Rightarrow> (Some e, s2)
                              | Inr max_hu \<Rightarrow>
                                  (None, s2\<lparr>header_info :=
                                     Some (info2\<lparr>MinHU := Some min_hu,
                                                 MaxHU := Some max_hu\<rparr>)\<rparr>)))
                      else (None, s2\<lparr>header_info :=
                              Some (info2\<lparr>MinHU := Some 0, MaxHU := Some 0\<rparr>)\<rparr>))))"

text \<open>
  The status texts of \<open>load_series\<close>, in the order of its \<open>return\<close> statements. The
  resolver of the model raises nothing outside its per-file \<open>try\<close>, so the text of the
  \<open>except\<close> around \<open>_sort_dicom_series\<close> is never returned.
\<close>

datatype load_message =
    NoFilesFound
  | SortFailed
  | NoValidSeries
  | ConversionFailed py_error
  | SeriesLoaded "nat option" "nat option" "nat option"
  | ProcessingProblem

definition load_series :: "loader \<Rightarrow> (py_error + dataset) list \<Rightarrow> load_message \<times> bool \<times> loader" where
  "load_series s dcm_files =
     (let s0 = s\<lparr>series_data := [], header_info := None, is_loaded := False,
                  full_hu_volume := None\<rparr>
      in if dcm_files = [] then (NoFilesFound, False, s0)
         else (let sorted_files = sort_dicom_series dcm_files
               in if sorted_files = [] then (NoValidSeries, False, s0)
                  else (case process_data s0 sorted_files of
                          (Some e, s1) \<Rightarrow> (ConversionFailed e, False, s1)
                        | (None, s1) \<Rightarrow>
                            if is_loaded s1 then
                              (SeriesLoaded (map_option NumSlices (header_info s1))
                                 (map_option Rows (header_info s1))
                                 (map_option Columns (header_info s1)), True, s1)
                            else (ProcessingProblem, False, s1))))"

section \<open>Viewer state and interaction\<close>

text \<open>
  The fields of \<open>DICOMViewerApp\<close> that its handlers compute with, and the values of
  the two contrast sliders \<open>wl_scale\<close> and \<open>ww_scale\<close>. Labels and the drawing
  done by \<open>update_image\<close> do not change this state and are left out.

  Setting a ttk slider, from the program or by the user, limits the value to the
  slider's range, stores it and runs the slider's \<open>command\<close>. Both contrast sliders
  have \<open>update_parameters_from_scale\<close> as command, so it runs inside every
  \<open>wl_scale.set\<close> and \<open>ww_scale.set\<close>. The slice slider has \<open>update_slice\<close> as
  command; its range is set to the index range of the active plane whenever that changes,
  so when the program sets it to \<open>current_slice\<close> the command finds
  \<open>int(slice_scale.get())\<close> equal to \<open>current_slice\<close> and does nothing. The
  slice slider is therefore not part of the state, and the value the user moves it to is
  an argument of \<open>update_slice\<close>.
\<close>

record app =
  data_loader :: loader
  current_slice :: int
  window_level :: real
  window_width :: real
  current_view :: string
  view_var :: string
  mouse_x :: int
  mouse_y :: int
  start_wl :: real
  start_ww :: real
  start_slice :: int
  wl_scale :: real
  ww_scale :: real

text \<open>Python's \<open>int(x)\<close> on a float truncates towards zero.\<close>

definition py_int :: "real \<Rightarrow> int" where
  "py_int x = (if 0 \<le> x then \<lfloor>x\<rfloor> else \<lceil>x\<rceil>)"

definition on_mouse_down :: "app \<Rightarrow> int \<Rightarrow> int \<Rightarrow> app" where
  "on_mouse_down a x y =
     (if is_loaded (data_loader a) then
        a\<lparr>mouse_x := x, mouse_y := y, start_wl := window_level a, start_ww := window_width a\<rparr>
      else a)"

definition update_parameters_from_scale :: "app \<Rightarrow> app" where
  "update_parameters_from_scale a =
     a\<lparr>window_level := wl_scale a, window_width := ww_scale a\<rparr>"

definition scale_limit :: "real \<Rightarrow> real \<Rightarrow> real \<Rightarrow> real" where
  "scale_limit lo hi v = max lo (min hi v)"

text \<open>
  \<open>wl_scale.set(v)\<close> and \<open>ww_scale.set(v)\<close>, with the ranges the sliders are
  created with and the command they run.
\<close>

definition wl_scale_set :: "app \<Rightarrow> real \<Rightarrow> app" where
  "wl_scale_set a v =
     update_parameters_from_scale (a\<lparr>wl_scale := scale_limit (- 3000) 3000 v\<rparr>)"

definition ww_scale_set :: "app \<Rightarrow> real \<Rightarrow> app" where
  "ww_scale_set a v =
     update_parameters_from_scale (a\<lparr>ww_scale := scale_limit 10 6000 v\<rparr>)"

definition update_wl_ww_gui :: "app \<Rightarrow> app" where
  "update_wl_ww_gui a =
     (let a1 = wl_scale_set a (window_level a)
      in ww_scale_set a1 (window_width a1))"

definition on_mouse_drag :: "app \<Rightarrow> int \<Rightarrow> int \<Rightarrow> app" where
  "on_mouse_drag a x y =
     (if is_loaded (data_loader a) then
        (let dx = x - mouse_x a;
             dy = y - mouse_y a;
             WL_SENSITIVITY = 2;
             WW_SENSITIVITY = 4;
             new_wl = start_wl a - real_of_int dy * WL_SENSITIVITY;
             new_ww = start_ww a + real_of_int dx * WW_SENSITIVITY
         in update_wl_ww_gui (a\<lparr>window_width := max 10 new_ww, window_level := new_wl\<rparr>))
      else a)"

definition get_max_slice_index :: "app \<Rightarrow> string \<Rightarrow> int" where
  "get_max_slice_index a view_plane =
     (let info = header_info (data_loader a) in
      if view_plane = ''Axial'' then
        int (case info of None \<Rightarrow> 1 | Some h \<Rightarrow> NumSlices h) - 1
      else if view_plane = ''Coronal'' then
        int (case info of None \<Rightarrow> 1 | Some h \<Rightarrow> Rows h) - 1
      else if view_plane = ''Sagittal'' then
        int (case info of None \<Rightarrow> 1 | Some h \<Rightarrow> Columns h) - 1
      else 0)"

definition set_current_slice :: "app \<Rightarrow> int \<Rightarrow> app" where
  "set_current_slice a new_slice =
     (let max_index = get_max_slice_index a (current_view a);
          clamped_slice = max 0 (min max_index new_slice)
      in if clamped_slice \<noteq> current_slice a then a\<lparr>current_slice := clamped_slice\<rparr>
         else a)"

definition on_mouse_down_right :: "app \<Rightarrow> int \<Rightarrow> app" where
  "on_mouse_down_right a y =
     (if is_loaded (data_loader a) then a\<lparr>mouse_y := y, start_slice := current_slice a\<rparr>
      else a)"

definition on_mouse_drag_right :: "app \<Rightarrow> int \<Rightarrow> app" where
  "on_mouse_drag_right a y =
     (if is_loaded (data_loader a) then
        (let dy = y - mouse_y a;
             SLICE_SENSITIVITY = 10;
             slice_delta = - py_int (real_of_int dy / SLICE_SENSITIVITY);
             new_slice = start_slice a + slice_delta
         in set_current_slice a new_slice)
      else a)"

definition on_mouse_wheel :: "app \<Rightarrow> int \<Rightarrow> int option \<Rightarrow> app" where
  "on_mouse_wheel a event_delta mac_direction =
     (if \<not> is_loaded (data_loader a) then a
      else (case mac_direction of
              Some d \<Rightarrow> set_current_slice a (current_slice a + d)
            | None \<Rightarrow>
                if event_delta \<noteq> 0 then
                  set_current_slice a (current_slice a + py_int (real_of_int event_delta / 120))
                else a))"

definition reset_slice_scale :: "app \<Rightarrow> app" where
  "reset_slice_scale a =
     (let max_index = get_max_slice_index a (current_view a)
      in if max_index < current_slice a then a\<lparr>current_slice := 0\<rparr> else a)"

definition change_view :: "app \<Rightarrow> app" where
  "change_view a =
     (if is_loaded (data_loader a) then reset_slice_scale (a\<lparr>current_view := view_var a\<rparr>)
      else a)"

definition update_slice :: "app \<Rightarrow> real \<Rightarrow> app" where
  "update_slice a slice_scale =
     (let new_slice = py_int slice_scale
      in if new_slice \<noteq> current_slice a then set_current_slice a new_slice else a)"

text \<open>
  The events the widgets deliver. Choosing a radio button stores the plane in
  \<open>view_var\<close> and then runs \<open>change_view\<close>; moving a contrast slider sets it.
\<close>

datatype event =
    MouseDown int int
  | MouseDrag int int
  | MouseDownRight int
  | MouseDragRight int
  | MouseWheel int "int option"
  | SliderMoved real
  | ViewSelected string
  | LevelSliderMoved real
  | WidthSliderMoved real

fun handle :: "app \<Rightarrow> event \<Rightarrow> app" where
  "handle a (MouseDown x y) = on_mouse_down a x y"
| "handle a (MouseDrag x y) = on_mouse_drag a x y"
| "handle a (MouseDownRight y) = on_mouse_down_right a y"
| "handle a (MouseDragRight y) = on_mouse_drag_right a y"
| "handle a (MouseWheel d m) = on_mouse_wheel a d m"
| "handle a (SliderMoved v) = update_slice a v"
| "handle a (ViewSelected v) = change_view (a\<lparr>view_var := v\<rparr>)"
| "handle a (LevelSliderMoved v) = wl_scale_set a v"
| "handle a (WidthSliderMoved v) = ww_scale_set a v"

fun is_drag :: "event \<Rightarrow> bool" where
  "is_drag (MouseDrag x y) = True"
| "is_drag (MouseDragRight y) = True"
| "is_drag e = False"

section \<open>Example inputs\<close>

text \<open>Two images of one series and one of another, and a viewer with a loaded volume.\<close>

definition example_ds :: "string \<Rightarrow> real \<Rightarrow> real \<Rightarrow> int list list \<Rightarrow> dataset" where
  "example_ds uid z slope px =
     \<lparr>PixelData = True, SeriesInstanceUID = Some uid,
      ImagePositionPatient = Some [0, 0, z],
      ds_Rows = Some (length px), ds_Columns = Some (length (hd px)),
      ds_SliceThickness = Some 2, ds_PixelSpacing = Some [1/2, 1],
      ds_RescaleIntercept = Some 0, ds_RescaleSlope = Some slope,
      pixel_array = Inr \<lparr>nrows = length px, ncols = length (hd px), cells = px\<rparr>\<rparr>"

definition example_files :: "(py_error + dataset) list" where
  "example_files =
     [Inr (example_ds ''A'' 2 1 [[1, 2], [3, 4]]),
      Inl ReadError,
      Inr (example_ds ''B'' 0 1 [[5, 6], [7, 8]]),
      Inr (example_ds ''A'' 1 2 [[1, 1], [1, 1]])]"


definition three_row_files :: "(py_error + dataset) list" where
  "three_row_files =
     [Inr (example_ds ''A'' 0 1 [[1, 2], [3, 4]]),
      Inr (example_ds ''A'' 1 1 [[9, 9], [9, 9], [9, 9]])]"

definition example_loaded :: loader where
  "example_loaded = snd (snd (load_series init_loader example_files))"

text \<open>The images of series A of \<open>example_files\<close> in resolved order.\<close>

definition example_series :: "dataset list" where
  "example_series =
     [example_ds ''A'' 1 2 [[1, 1], [1, 1]], example_ds ''A'' 2 1 [[1, 2], [3, 4]]]"

definition example_header :: header where
  "example_header =
     \<lparr>Rows = 4, Columns = 5, SliceThickness = 2, PixelSpacing = [1/2, 1], NumSlices = 10,
      RescaleIntercept = 0, RescaleSlope = 1, MinHU = Some 0, MaxHU = Some 100\<rparr>"

definition example_loader :: loader where
  "example_loader =
     \<lparr>series_data = [], header_info = Some example_header, is_loaded = True,
      full_hu_volume = Some (np_zeros 10 4 5)\<rparr>"

definition example_app :: app where
  "example_app =
     \<lparr>data_loader = example_loader, current_slice = 3, window_level = 40,
      window_width = 400, current_view = ''Axial'', view_var = ''Axial'',
      mouse_x = 0, mouse_y = 0, start_wl = 40, start_ww = 400, start_slice = 0,
      wl_scale = 40, ww_scale = 400\<rparr>"

text \<open>
  A folder whose only image gives a single pixel spacing, and the loader after loading
  it.
\<close>

definition one_spacing_files :: "(py_error + dataset) list" where
  "one_spacing_files =
     [Inr ((example_ds ''A'' 0 1 [[1, 2], [3, 4]])\<lparr>ds_PixelSpacing := Some [1/2]\<rparr>)]"

definition one_spacing_loaded :: loader where
  "one_spacing_loaded = snd (snd (load_series init_loader one_spacing_files))"

section \<open>Properties of the reslicer\<close>

text \<open>
  Claim C8. In a loaded state whose header holds the pixel spacing
  [row spacing, column spacing] and the slice thickness as depth spacing, all positive,
  the aspect ratio is column spacing / row spacing for the Axial (depth) plane,
  column spacing / depth spacing for the Coronal (row) plane and
  row spacing / depth spacing for the Sagittal (column) plane.
\<close>

theorem aspect_ratio_of_spacing:
  assumes "is_loaded s"
    and "header_info s = Some info"
    and "PixelSpacing info = [row_spacing, column_spacing]"
    and "SliceThickness info = depth_spacing"
    and "0 < row_spacing" and "0 < column_spacing" and "0 < depth_spacing"
  shows "get_aspect_ratio s ''Axial'' = Inr (column_spacing / row_spacing)
       \<and> get_aspect_ratio s ''Coronal'' = Inr (column_spacing / depth_spacing)
       \<and> get_aspect_ratio s ''Sagittal'' = Inr (row_spacing / depth_spacing)"
  using assms by (simp add: get_aspect_ratio_def list_item_def py_truediv_def)

theorem aspect_ratio_of_spacing_witness:
  "get_aspect_ratio
     \<lparr>series_data = [],
      header_info = Some \<lparr>Rows = 2, Columns = 2, SliceThickness = 2,
        PixelSpacing = [1/2, 1], NumSlices = 1, RescaleIntercept = 0, RescaleSlope = 1,
        MinHU = None, MaxHU = None\<rparr>,
      is_loaded = True, full_hu_volume = None\<rparr> ''Axial'' = Inr 2
   \<and> get_aspect_ratio
     \<lparr>series_data = [],
      header_info = Some \<lparr>Rows = 2, Columns = 2, SliceThickness = 2,
        PixelSpacing = [1/2, 1], NumSlices = 1, RescaleIntercept = 0, RescaleSlope = 1,
        MinHU = None, MaxHU = None\<rparr>,
      is_loaded = True, full_hu_volume = None\<rparr> ''Coronal'' = Inr (1/2)
   \<and> get_aspect_ratio
     \<lparr>series_data = [],
      header_info = Some \<lparr>Rows = 2, Columns = 2, SliceThickness = 2,
        PixelSpacing = [1/2, 1], NumSlices = 1, RescaleIntercept = 0, RescaleSlope = 1,
        MinHU = None, MaxHU = None\<rparr>,
      is_loaded = True, full_hu_volume = None\<rparr> ''Sagittal'' = Inr (1/4)"
  using aspect_ratio_of_spacing
    [of "\<lparr>series_data = [],
      header_info = Some \<lparr>Rows = 2, Columns = 2, SliceThickness = 2,
        PixelSpacing = [1/2, 1], NumSlices = 1, RescaleIntercept = 0, RescaleSlope = 1,
        MinHU = None, MaxHU = None\<rparr>,
      is_loaded = True, full_hu_volume = None\<rparr>"
      "\<lparr>Rows = 2, Columns = 2, SliceThickness = 2,
        PixelSpacing = [1/2, 1], NumSlices = 1, RescaleIntercept = 0, RescaleSlope = 1,
        MinHU = None, MaxHU = None\<rparr>" "1/2" 1 2]
  by simp

lemma one_spacing_loaded_state:
  "load_series init_loader one_spacing_files =
     (SeriesLoaded (Some 1) (Some 2) (Some 2), True, one_spacing_loaded)"
  "one_spacing_loaded =
     \<lparr>series_data = [],
      header_info = Some \<lparr>Rows = 2, Columns = 2, SliceThickness = 2, PixelSpacing = [1/2],
        NumSlices = 1, RescaleIntercept = 0, RescaleSlope = 1,
        MinHU = Some 1, MaxHU = Some 4\<rparr>,
      is_loaded = True,
      full_hu_volume = Some \<lparr>nslices = 1, vrows = 2, vcols = 2,
        voxels = [[[1, 2], [3, 4]]]\<rparr>\<rparr>"
proof -
  have s: "sort_dicom_series one_spacing_files
      = [(example_ds ''A'' 0 1 [[1, 2], [3, 4]])\<lparr>ds_PixelSpacing := Some [1/2]\<rparr>]"
    by (simp add: sort_dicom_series_def main_series_def one_spacing_files_def
        read_candidate_def example_ds_def list_item_def series_map_get_def Let_def)
  have l: "load_series init_loader one_spacing_files =
     (SeriesLoaded (Some 1) (Some 2) (Some 2), True,
      \<lparr>series_data = [],
       header_info = Some \<lparr>Rows = 2, Columns = 2, SliceThickness = 2, PixelSpacing = [1/2],
         NumSlices = 1, RescaleIntercept = 0, RescaleSlope = 1,
         MinHU = Some 1, MaxHU = Some 4\<rparr>,
       is_loaded = True,
       full_hu_volume = Some \<lparr>nslices = 1, vrows = 2, vcols = 2,
         voxels = [[[1, 2], [3, 4]]]\<rparr>\<rparr>)"
    unfolding load_series_def s
    by (simp add: one_spacing_files_def init_loader_def process_data_def header_of_def
        example_ds_def np_zeros_def hu_array_def broadcast_rows_def astype_int16_def
        np_min_def np_max_def Let_def)
  then show "one_spacing_loaded =
     \<lparr>series_data = [],
      header_info = Some \<lparr>Rows = 2, Columns = 2, SliceThickness = 2, PixelSpacing = [1/2],
        NumSlices = 1, RescaleIntercept = 0, RescaleSlope = 1,
        MinHU = Some 1, MaxHU = Some 4\<rparr>,
      is_loaded = True,
      full_hu_volume = Some \<lparr>nslices = 1, vrows = 2, vcols = 2,
        voxels = [[[1, 2], [3, 4]]]\<rparr>\<rparr>"
    by (simp add: one_spacing_loaded_def)
  with l show "load_series init_loader one_spacing_files =
     (SeriesLoaded (Some 1) (Some 2) (Some 2), True, one_spacing_loaded)"
    by simp
qed

text \<open>
  Claim C10, as the code has it. While no volume is loaded, \<open>get_slice_data\<close> returns
  None without raising and \<open>get_aspect_ratio\<close> returns 1.0, for every plane selector
  and index. For a plane selector other than the three recognised ones,
  \<open>get_slice_data\<close> returns None in every state; \<open>get_aspect_ratio\<close> in a loaded
  state reads \<open>PixelSpacing[0]\<close> and \<open>PixelSpacing[1]\<close> from the header before it
  looks at the plane: it returns 1.0 when the header holds both, and raises when the
  header is empty or holds fewer than two spacings.
\<close>

theorem unloaded_or_unknown_plane_fallback:
  "(\<not> is_loaded s \<longrightarrow>
      get_slice_data s view_plane index = Inr None \<and> get_aspect_ratio s view_plane = Inr 1)
   \<and> (view_plane \<notin> {''Axial'', ''Coronal'', ''Sagittal''} \<longrightarrow>
        get_slice_data s view_plane index = Inr None
        \<and> (header_info s = Some info \<and> 2 \<le> length (PixelSpacing info) \<longrightarrow>
             get_aspect_ratio s view_plane = Inr 1)
        \<and> (is_loaded s \<and> (header_info s = None
               \<or> header_info s = Some info \<and> length (PixelSpacing info) < 2) \<longrightarrow>
             isl (get_aspect_ratio s view_plane)))"
  by (auto simp add: get_slice_data_def get_aspect_ratio_def list_item_def)

theorem unloaded_or_unknown_plane_fallback_witness:
  "get_slice_data init_loader ''Axial'' 3 = Inr None
   \<and> get_aspect_ratio init_loader ''Axial'' = Inr 1
   \<and> get_slice_data example_loader ''Oblique'' 0 = Inr None
   \<and> get_aspect_ratio example_loader ''Oblique'' = Inr 1
   \<and> get_slice_data one_spacing_loaded ''Oblique'' 0 = Inr None
   \<and> isl (get_aspect_ratio one_spacing_loaded ''Oblique'')"
proof -
  have u: "\<not> is_loaded init_loader" by (simp add: init_loader_def)
  have p: "''Oblique'' \<notin> {''Axial'', ''Coronal'', ''Sagittal''}" by simp
  have h: "header_info example_loader = Some example_header
      \<and> 2 \<le> length (PixelSpacing example_header)"
    by (simp add: example_loader_def example_header_def)
  obtain info where o: "is_loaded one_spacing_loaded
      \<and> (header_info one_spacing_loaded = None
         \<or> header_info one_spacing_loaded = Some info \<and> length (PixelSpacing info) < 2)"
    unfolding one_spacing_loaded_state(2) by simp
  from unloaded_or_unknown_plane_fallback
    [where s = init_loader and view_plane = "''Axial''" and index = 3] u
  have a: "get_slice_data init_loader ''Axial'' 3 = Inr None
      \<and> get_aspect_ratio init_loader ''Axial'' = Inr 1"
    by blast
  from unloaded_or_unknown_plane_fallback
    [where s = example_loader and view_plane = "''Oblique''" and index = 0
      and info = example_header] p h
  have b: "get_slice_data example_loader ''Oblique'' 0 = Inr None
      \<and> get_aspect_ratio example_loader ''Oblique'' = Inr 1"
    by blast
  from unloaded_or_unknown_plane_fallback
    [where s = one_spacing_loaded and view_plane = "''Oblique''" and index = 0
      and info = info] p o
  have c: "get_slice_data one_spacing_loaded ''Oblique'' 0 = Inr None
      \<and> isl (get_aspect_ratio one_spacing_loaded ''Oblique'')"
    by blast
  show ?thesis using a b c by simp
qed

text \<open>
  The claim as stated asks for 1.0 whenever the plane selector is not recognised. The
  folder \<open>one_spacing_files\<close> loads successfully; its header holds one pixel spacing,
  and \<open>get_aspect_ratio\<close> raises on the unrecognised plane instead of returning 1.0.
\<close>

theorem unknown_plane_aspect_ratio_counterexample:
  "fst (snd (load_series init_loader one_spacing_files)) = True
   \<and> is_loaded (snd (snd (load_series init_loader one_spacing_files)))
   \<and> ''Oblique'' \<notin> {''Axial'', ''Coronal'', ''Sagittal''}
   \<and> isl (get_aspect_ratio (snd (snd (load_series init_loader one_spacing_files)))
          ''Oblique'')
   \<and> get_aspect_ratio (snd (snd (load_series init_loader one_spacing_files))) ''Oblique''
        \<noteq> Inr 1"
  unfolding one_spacing_loaded_state(1) unfolding one_spacing_loaded_state(2)
  by (simp add: get_aspect_ratio_def list_item_def)

section \<open>Properties of the interaction controller\<close>

lemma set_current_slice_fields:
  "data_loader (set_current_slice a n) = data_loader a"
  "current_view (set_current_slice a n) = current_view a"
  "mouse_x (set_current_slice a n) = mouse_x a"
  "mouse_y (set_current_slice a n) = mouse_y a"
  "start_wl (set_current_slice a n) = start_wl a"
  "start_ww (set_current_slice a n) = start_ww a"
  "start_slice (set_current_slice a n) = start_slice a"
  by (simp_all add: set_current_slice_def Let_def)

lemma set_current_slice_value:
  "current_slice (set_current_slice a n)
     = max 0 (min (get_max_slice_index a (current_view a)) n)"
  by (simp add: set_current_slice_def Let_def)

lemma update_wl_ww_gui_fields:
  "data_loader (update_wl_ww_gui a) = data_loader a"
  "current_slice (update_wl_ww_gui a) = current_slice a"
  "current_view (update_wl_ww_gui a) = current_view a"
  "mouse_x (update_wl_ww_gui a) = mouse_x a"
  "mouse_y (update_wl_ww_gui a) = mouse_y a"
  "start_slice (update_wl_ww_gui a) = start_slice a"
  by (simp_all add: update_wl_ww_gui_def wl_scale_set_def ww_scale_set_def
      update_parameters_from_scale_def Let_def)

lemma update_wl_ww_gui_result:
  "window_level (update_wl_ww_gui a) = scale_limit (- 3000) 3000 (window_level a)"
  "window_width (update_wl_ww_gui a) = scale_limit 10 6000 (ww_scale a)"
  by (simp_all add: update_wl_ww_gui_def wl_scale_set_def ww_scale_set_def
      update_parameters_from_scale_def Let_def)

lemma on_mouse_drag_fields:
  "data_loader (on_mouse_drag a x y) = data_loader a"
  "current_slice (on_mouse_drag a x y) = current_slice a"
  "current_view (on_mouse_drag a x y) = current_view a"
  "mouse_y (on_mouse_drag a x y) = mouse_y a"
  "start_slice (on_mouse_drag a x y) = start_slice a"
  by (simp_all add: on_mouse_drag_def Let_def update_wl_ww_gui_fields)

text \<open>
  What a contrast drag leaves behind in a loaded viewer: the level computed from the
  snapshot, limited to the range of the level slider, and the value the width slider
  held before, because setting the level slider runs \<open>update_parameters_from_scale\<close>,
  which reads the width slider before the handler has set it.
\<close>

lemma on_mouse_drag_result:
  assumes "is_loaded (data_loader a)"
  shows "window_level (on_mouse_drag a x y)
           = scale_limit (- 3000) 3000 (start_wl a - real_of_int (y - mouse_y a) * 2)"
    and "window_width (on_mouse_drag a x y) = scale_limit 10 6000 (ww_scale a)"
  using assms by (simp_all add: on_mouse_drag_def Let_def update_wl_ww_gui_result)

text \<open>
  Claim C6 at the failing input. The viewer is loaded, level 40 and width 400 as its
  sliders show; the button is pressed at (100, 100) and the pointer dragged to (80, 130).
  The claim gives level \<open>40 - 30 * 2.0 = -20\<close> and width
  \<open>max(10.0, 400 + (-20) * 4.0) = 320\<close>. The handler assigns both values and then
  calls \<open>_update_wl_ww_gui\<close>: the level ends at -20, the width is back at 400.
\<close>

theorem contrast_drag_width_overwritten:
  "window_level example_app = 40 \<and> window_width example_app = 400
   \<and> window_level (on_mouse_drag (on_mouse_down example_app 100 100) 80 130) = - 20
   \<and> window_width (on_mouse_drag (on_mouse_down example_app 100 100) 80 130) = 400
   \<and> max 10 (window_width example_app + real_of_int (80 - 100) * 4) = 320"
  by (simp add: on_mouse_drag_def on_mouse_down_def update_wl_ww_gui_def wl_scale_set_def
      ww_scale_set_def update_parameters_from_scale_def scale_limit_def Let_def
      example_app_def example_loader_def)

lemma drag_keeps_scrub_start:
  assumes "is_drag e"
  shows "data_loader (handle a e) = data_loader a
       \<and> current_view (handle a e) = current_view a
       \<and> mouse_y (handle a e) = mouse_y a \<and> start_slice (handle a e) = start_slice a"
  using assms
  by (cases e)
     (simp_all add: on_mouse_drag_fields on_mouse_drag_right_def Let_def
        set_current_slice_fields)

lemma drags_keep_scrub_start:
  assumes "\<forall>e \<in> set es. is_drag e"
  shows "data_loader (foldl handle a es) = data_loader a
       \<and> current_view (foldl handle a es) = current_view a
       \<and> mouse_y (foldl handle a es) = mouse_y a
       \<and> start_slice (foldl handle a es) = start_slice a"
  using assms
proof (induction es arbitrary: a)
  case Nil
  show ?case by simp
next
  case (Cons e es)
  have "is_drag e" and rest: "\<forall>e \<in> set es. is_drag e" using Cons.prems by simp_all
  from drag_keeps_scrub_start [OF this(1), of a] Cons.IH [OF rest, of "handle a e"]
  show ?case by simp
qed

lemma py_int_tenth:
  "py_int (real_of_int d / 10) = (if 0 \<le> d then d div 10 else - ((- d) div 10))"
proof (cases "0 \<le> d")
  case True
  then show ?thesis by (simp add: py_int_def floor_divide_of_int_eq [of d 10, simplified])
next
  case False
  then have neg: "real_of_int d / 10 < 0" by simp
  have "\<lceil>real_of_int d / 10\<rceil> = - \<lfloor>real_of_int (- d) / 10\<rfloor>"
    by (simp add: ceiling_def)
  also have "\<dots> = - ((- d) div 10)"
    using floor_divide_of_int_eq [of "- d" 10] by simp
  finally show ?thesis using False neg by (simp add: py_int_def)
qed

text \<open>
  Claim C7, as the code has it. In a loaded viewer, after a right-button press at
  \<open>y0\<close>, any drag events in between and a right-button drag event at \<open>y\<close>, the index
  delta is minus the quotient \<open>(y - y0) / 10\<close> truncated towards zero (not rounded
  down), and the current index is the index at the press plus that delta, clamped as
  \<open>max(0, min(axis extent - 1, .))\<close>: it is recomputed from the start of the gesture,
  whatever the drag events in between did.
\<close>

theorem scrub_drag_truncates:
  assumes "is_loaded (data_loader a)"
    and "\<forall>e \<in> set es. is_drag e"
  shows "current_slice
           (on_mouse_drag_right (foldl handle (on_mouse_down_right a y0) es) y)
           = max 0 (min (get_max_slice_index a (current_view a))
                        (current_slice a
                           + - (if 0 \<le> y - y0 then (y - y0) div 10
                                else - ((- (y - y0)) div 10))))"
proof -
  let ?p = "on_mouse_down_right a y0"
  let ?b = "foldl handle ?p es"
  have p: "data_loader ?p = data_loader a" "mouse_y ?p = y0"
    "start_slice ?p = current_slice a" "current_view ?p = current_view a"
    using assms(1) by (simp_all add: on_mouse_down_right_def)
  from drags_keep_scrub_start [OF assms(2), of ?p] p
  have b: "data_loader ?b = data_loader a" "mouse_y ?b = y0"
    "start_slice ?b = current_slice a" "current_view ?b = current_view a"
    by simp_all
  have l: "is_loaded (data_loader ?b)" using b(1) assms(1) by simp
  have m: "get_max_slice_index ?b (current_view a) = get_max_slice_index a (current_view a)"
    using b(1) by (simp add: get_max_slice_index_def)
  show ?thesis
    using l b m py_int_tenth [of "y - y0"]
    by (simp add: on_mouse_drag_right_def Let_def set_current_slice_value)
qed

theorem scrub_drag_truncates_witness:
  "current_slice (on_mouse_drag_right (foldl handle (on_mouse_down_right example_app 100)
       [MouseDragRight 90, MouseDrag 3 4, MouseDragRight 60]) 95) = 3
   \<and> current_slice (on_mouse_drag_right (foldl handle (on_mouse_down_right example_app 100)
       [MouseDragRight 90]) 75) = 5
   \<and> current_slice (on_mouse_drag_right (foldl handle (on_mouse_down_right example_app 100)
       []) 125) = 1"
proof -
  have l: "is_loaded (data_loader example_app)"
    by (simp add: example_app_def example_loader_def)
  have d3: "\<forall>e \<in> set [MouseDragRight 90, MouseDrag 3 4, MouseDragRight 60]. is_drag e"
    and d1: "\<forall>e \<in> set [MouseDragRight 90]. is_drag e"
    and d0: "\<forall>e \<in> set ([] :: event list). is_drag e"
    by simp_all
  have m: "get_max_slice_index example_app (current_view example_app) = 9"
    by (simp add: example_app_def example_loader_def example_header_def
        get_max_slice_index_def)
  have c: "current_slice example_app = 3" by (simp add: example_app_def)
  from scrub_drag_truncates [OF l d3, of 100 95] scrub_drag_truncates [OF l d1, of 100 75]
    scrub_drag_truncates [OF l d0, of 100 125]
  show ?thesis unfolding m c by simp
qed

text \<open>
  Two motions of one gesture, evaluated: after the press at 100 with index 3, the motion
  to 110 gives index 2 and the motion to 120 gives index 1 (not 0, which adding the
  second delta to the index reached by the first would give).
\<close>

lemma scrub_two_motions:
  "current_slice (on_mouse_drag_right (on_mouse_down_right example_app 100) 110) = 2
   \<and> current_slice (on_mouse_drag_right
        (on_mouse_drag_right (on_mouse_down_right example_app 100) 110) 120) = 1"
  using py_int_tenth [of 10] py_int_tenth [of 20]
  by (simp add: on_mouse_drag_right_def on_mouse_down_right_def set_current_slice_def
      get_max_slice_index_def example_app_def example_loader_def example_header_def Let_def)

text \<open>
  The claim as stated asks for \<open>-floor((y - y0) / 10)\<close>. At \<open>y - y0 = -5\<close> that
  delta is 1, while the code computes \<open>-int(-0.5) = 0\<close> and the index stays at 3.
\<close>

theorem scrub_drag_floor_counterexample:
  "current_slice (on_mouse_drag_right (on_mouse_down_right example_app 100) 95)
     \<noteq> max 0 (min (get_max_slice_index example_app (current_view example_app))
                 (current_slice example_app + - \<lfloor>real_of_int (95 - 100) / 10\<rfloor>))"
proof -
  have f: "\<lfloor>real_of_int (95 - 100) / 10\<rfloor> = - 1" by (simp add: floor_eq_iff)
  have m: "get_max_slice_index example_app (current_view example_app) = 9"
    by (simp add: example_app_def example_loader_def example_header_def
        get_max_slice_index_def)
  have c: "current_slice example_app = 3" by (simp add: example_app_def)
  have t: "py_int (- (1 / 2)) = 0"
    using py_int_tenth [of "- 5"] by simp
  have "current_slice (on_mouse_drag_right (on_mouse_down_right example_app 100) 95) = 3"
    by (simp add: on_mouse_drag_right_def on_mouse_down_right_def set_current_slice_def
        get_max_slice_index_def example_app_def example_loader_def example_header_def
        t Let_def)
  then show ?thesis unfolding f m c by simp
qed

lemma handle_data_loader: "data_loader (handle a e) = data_loader a"
  by (cases e)
     (simp_all add: on_mouse_down_def on_mouse_drag_def on_mouse_down_right_def
        on_mouse_drag_right_def on_mouse_wheel_def update_slice_def change_view_def
        reset_slice_scale_def update_parameters_from_scale_def set_current_slice_fields
        update_wl_ww_gui_fields wl_scale_set_def ww_scale_set_def
        Let_def split: option.splits)

lemma foldl_handle_data_loader: "data_loader (foldl handle a es) = data_loader a"
  by (induction es arbitrary: a) (simp_all add: handle_data_loader)

lemma get_max_slice_index_loader:
  "data_loader a = data_loader b \<Longrightarrow> get_max_slice_index a v = get_max_slice_index b v"
  by (simp add: get_max_slice_index_def Let_def)

lemma get_max_slice_index_fields:
  "get_max_slice_index (a\<lparr>current_slice := n\<rparr>) v = get_max_slice_index a v"
  "get_max_slice_index (a\<lparr>current_view := w\<rparr>) v = get_max_slice_index a v"
  "get_max_slice_index (a\<lparr>view_var := w\<rparr>) v = get_max_slice_index a v"
  "get_max_slice_index (a\<lparr>mouse_x := x\<rparr>) v = get_max_slice_index a v"
  "get_max_slice_index (a\<lparr>mouse_y := y\<rparr>) v = get_max_slice_index a v"
  "get_max_slice_index (a\<lparr>start_wl := l\<rparr>) v = get_max_slice_index a v"
  "get_max_slice_index (a\<lparr>start_ww := l\<rparr>) v = get_max_slice_index a v"
  "get_max_slice_index (a\<lparr>start_slice := n\<rparr>) v = get_max_slice_index a v"
  "get_max_slice_index (a\<lparr>window_level := l\<rparr>) v = get_max_slice_index a v"
  "get_max_slice_index (a\<lparr>window_width := l\<rparr>) v = get_max_slice_index a v"
  "get_max_slice_index (a\<lparr>wl_scale := l\<rparr>) v = get_max_slice_index a v"
  "get_max_slice_index (a\<lparr>ww_scale := l\<rparr>) v = get_max_slice_index a v"
  by (simp_all add: get_max_slice_index_def)

lemma get_max_slice_index_nonneg:
  assumes "header_info (data_loader a) = Some info"
    and "0 < NumSlices info" and "0 < Rows info" and "0 < Columns info"
  shows "0 \<le> get_max_slice_index a v"
  using assms by (simp add: get_max_slice_index_def Let_def)

lemma set_current_slice_in_range:
  assumes "0 \<le> get_max_slice_index a (current_view a)"
  shows "0 \<le> current_slice (set_current_slice a n)
       \<and> current_slice (set_current_slice a n)
            \<le> get_max_slice_index (set_current_slice a n) (current_view (set_current_slice a n))"
proof -
  have "get_max_slice_index (set_current_slice a n) (current_view (set_current_slice a n))
          = get_max_slice_index a (current_view a)"
    by (simp add: set_current_slice_fields get_max_slice_index_loader [of "set_current_slice a n" a])
  then show ?thesis using assms by (simp add: set_current_slice_value)
qed

lemma change_view_in_range:
  assumes "0 \<le> get_max_slice_index a v" and "0 \<le> current_slice a"
    and "is_loaded (data_loader a)"
  shows "0 \<le> current_slice (change_view (a\<lparr>view_var := v\<rparr>))
       \<and> current_slice (change_view (a\<lparr>view_var := v\<rparr>))
            \<le> get_max_slice_index (change_view (a\<lparr>view_var := v\<rparr>))
                 (current_view (change_view (a\<lparr>view_var := v\<rparr>)))"
  using assms
  by (simp add: change_view_def reset_slice_scale_def Let_def get_max_slice_index_fields)

lemma handle_in_range:
  assumes nonneg: "\<And>v. 0 \<le> get_max_slice_index a v"
    and loaded: "is_loaded (data_loader a)"
    and range: "0 \<le> current_slice a"
      "current_slice a \<le> get_max_slice_index a (current_view a)"
  shows "0 \<le> current_slice (handle a e)
       \<and> current_slice (handle a e) \<le> get_max_slice_index (handle a e) (current_view (handle a e))"
proof (cases e)
  case (MouseDown x y)
  then show ?thesis
    using range by (simp add: on_mouse_down_def get_max_slice_index_fields)
next
  case (MouseDrag x y)
  have "get_max_slice_index (on_mouse_drag a x y) (current_view a)
      = get_max_slice_index a (current_view a)"
    by (rule get_max_slice_index_loader) (rule on_mouse_drag_fields)
  then show ?thesis
    using range MouseDrag by (simp add: on_mouse_drag_fields)
next
  case (MouseDownRight y)
  then show ?thesis
    using range by (simp add: on_mouse_down_right_def get_max_slice_index_fields)
next
  case (MouseDragRight y)
  then show ?thesis
    using set_current_slice_in_range [OF nonneg] loaded
    by (simp add: on_mouse_drag_right_def Let_def)
next
  case (MouseWheel d m)
  then show ?thesis
    using set_current_slice_in_range [OF nonneg] loaded range
    by (simp add: on_mouse_wheel_def split: option.splits)
next
  case (SliderMoved x)
  then show ?thesis
    using set_current_slice_in_range [OF nonneg] range
    by (simp add: update_slice_def Let_def)
next
  case (ViewSelected v)
  then show ?thesis
    using change_view_in_range [OF nonneg range(1) loaded] by simp
next
  case (LevelSliderMoved v)
  then show ?thesis
    using range
    by (simp add: wl_scale_set_def update_parameters_from_scale_def
        get_max_slice_index_fields)
next
  case (WidthSliderMoved v)
  then show ?thesis
    using range
    by (simp add: ww_scale_set_def update_parameters_from_scale_def
        get_max_slice_index_fields)
qed

lemma foldl_handle_in_range:
  assumes "\<And>v. 0 \<le> get_max_slice_index a v"
    and "is_loaded (data_loader a)"
    and "0 \<le> current_slice a"
    and "current_slice a \<le> get_max_slice_index a (current_view a)"
  shows "0 \<le> current_slice (foldl handle a es)
       \<and> current_slice (foldl handle a es)
            \<le> get_max_slice_index (foldl handle a es) (current_view (foldl handle a es))"
  using assms
proof (induction es arbitrary: a)
  case Nil
  then show ?case by simp
next
  case (Cons e es)
  have n: "\<And>v. 0 \<le> get_max_slice_index (handle a e) v"
    using Cons.prems(1) get_max_slice_index_loader [OF handle_data_loader, of a e] by simp
  have l: "is_loaded (data_loader (handle a e))"
    using Cons.prems(2) by (simp add: handle_data_loader)
  from handle_in_range [OF Cons.prems(1) Cons.prems(2) Cons.prems(3) Cons.prems(4), of e]
  have r: "0 \<le> current_slice (handle a e)"
    "current_slice (handle a e) \<le> get_max_slice_index (handle a e) (current_view (handle a e))"
    by simp_all
  from Cons.IH [OF n l r] show ?case by simp
qed

text \<open>
  Claim C9. In a loaded viewer whose header dimensions are those of the volume, all at
  least 1, and whose current index starts within range, after every sequence of events
  (slice scrub, wheel step, slider change, axis change, and the contrast events as well)
  the current index lies in [0, extent - 1] of the active axis, the extent being the
  number of slices for Axial, of rows for Coronal and of columns for Sagittal, read from
  the volume dimensions. Selecting a plane makes it the active one and sets the index to
  0 if the index held before exceeds the new extent minus one, and keeps it otherwise.
\<close>

theorem current_index_stays_in_range:
  assumes "is_loaded (data_loader a)"
    and "header_info (data_loader a) = Some info"
    and "full_hu_volume (data_loader a) = Some vol"
    and "NumSlices info = nslices vol" and "Rows info = vrows vol"
    and "Columns info = vcols vol"
    and "0 < nslices vol" and "0 < vrows vol" and "0 < vcols vol"
    and "0 \<le> current_slice a"
    and "current_slice a \<le> get_max_slice_index a (current_view a)"
  shows "0 \<le> current_slice (foldl handle a es)
       \<and> current_slice (foldl handle a es)
            \<le> get_max_slice_index (foldl handle a es) (current_view (foldl handle a es))
       \<and> get_max_slice_index (foldl handle a es) ''Axial'' = int (nslices vol) - 1
       \<and> get_max_slice_index (foldl handle a es) ''Coronal'' = int (vrows vol) - 1
       \<and> get_max_slice_index (foldl handle a es) ''Sagittal'' = int (vcols vol) - 1
       \<and> current_view (handle a (ViewSelected v)) = v
       \<and> current_slice (handle a (ViewSelected v))
            = (if get_max_slice_index a v < current_slice a then 0 else current_slice a)"
proof -
  have nonneg: "\<And>v. 0 \<le> get_max_slice_index a v"
    using get_max_slice_index_nonneg [OF assms(2)] assms(4-9) by simp
  note range = foldl_handle_in_range [OF nonneg assms(1) assms(10) assms(11), of es]
  have same: "\<And>v. get_max_slice_index (foldl handle a es) v = get_max_slice_index a v"
    by (rule get_max_slice_index_loader) (rule foldl_handle_data_loader)
  have extents: "get_max_slice_index a ''Axial'' = int (nslices vol) - 1"
    "get_max_slice_index a ''Coronal'' = int (vrows vol) - 1"
    "get_max_slice_index a ''Sagittal'' = int (vcols vol) - 1"
    using assms(2,4,5,6) by (simp_all add: get_max_slice_index_def Let_def)
  have sel: "current_view (handle a (ViewSelected v)) = v"
    "current_slice (handle a (ViewSelected v))
       = (if get_max_slice_index a v < current_slice a then 0 else current_slice a)"
    using assms(1)
    by (simp_all add: change_view_def reset_slice_scale_def Let_def get_max_slice_index_fields)
  show ?thesis using range same extents sel by simp
qed

theorem current_index_stays_in_range_witness:
  "0 \<le> current_slice (foldl handle example_app
            [ViewSelected ''Coronal'', MouseWheel 0 (Some (- 1)), SliderMoved 9])
   \<and> current_slice (foldl handle example_app
            [ViewSelected ''Coronal'', MouseWheel 0 (Some (- 1)), SliderMoved 9]) \<le> 3
   \<and> current_slice (handle example_app (ViewSelected ''Sagittal'')) = 3"
proof -
  let ?es = "[ViewSelected ''Coronal'', MouseWheel 0 (Some (- 1)), SliderMoved 9]"
  have h: "is_loaded (data_loader example_app)"
    "header_info (data_loader example_app) = Some example_header"
    "full_hu_volume (data_loader example_app) = Some (np_zeros 10 4 5)"
    "NumSlices example_header = nslices (np_zeros 10 4 5)"
    "Rows example_header = vrows (np_zeros 10 4 5)"
    "Columns example_header = vcols (np_zeros 10 4 5)"
    "0 < nslices (np_zeros 10 4 5)" "0 < vrows (np_zeros 10 4 5)"
    "0 < vcols (np_zeros 10 4 5)"
    by (simp_all add: example_app_def example_loader_def example_header_def np_zeros_def)
  have r: "0 \<le> current_slice example_app"
    "current_slice example_app \<le> get_max_slice_index example_app (current_view example_app)"
    by (simp_all add: example_app_def example_loader_def example_header_def
        get_max_slice_index_def Let_def)
  have l: "data_loader example_app = example_loader" by (simp add: example_app_def)
  have v1: "current_view (handle example_app (ViewSelected ''Coronal'')) = ''Coronal''"
    by (simp add: change_view_def reset_slice_scale_def Let_def l example_loader_def)
  have v2: "current_view (handle (handle example_app (ViewSelected ''Coronal''))
              (MouseWheel 0 (Some (- 1)))) = ''Coronal''"
    unfolding handle.simps(5) on_mouse_wheel_def using v1
    by (simp add: set_current_slice_fields)
  have v: "current_view (foldl handle example_app ?es) = ''Coronal''"
    using v2 by (simp add: update_slice_def Let_def set_current_slice_fields)
  have m: "get_max_slice_index example_app ''Sagittal'' = 4"
    by (simp add: example_app_def example_loader_def example_header_def
        get_max_slice_index_def Let_def)
  have c: "current_slice example_app = 3" by (simp add: example_app_def)
  have z: "int (vrows (np_zeros 10 4 5)) - 1 = 3" by (simp add: np_zeros_def)
  note t = current_index_stays_in_range [OF h r, of ?es "''Sagittal''"]
  show ?thesis using t unfolding v m c z by simp
qed

section \<open>Properties of the series resolver\<close>















lemma example_sorted:
  "sort_dicom_series example_files =
     [example_ds ''A'' 1 2 [[1, 1], [1, 1]], example_ds ''A'' 2 1 [[1, 2], [3, 4]]]"
  by (simp add: sort_dicom_series_def main_series_def example_files_def read_candidate_def
      example_ds_def list_item_def series_map_get_def Let_def)



section \<open>Properties of the volume builder\<close>


lemma example_loaded_value:
  "load_series init_loader example_files =
     (SeriesLoaded (Some 2) (Some 2) (Some 2), True,
      \<lparr>series_data = [],
       header_info = Some \<lparr>Rows = 2, Columns = 2, SliceThickness = 2, PixelSpacing = [1/2, 1],
         NumSlices = 2, RescaleIntercept = 0, RescaleSlope = 2,
         MinHU = Some 2, MaxHU = Some 8\<rparr>,
       is_loaded = True,
       full_hu_volume = Some \<lparr>nslices = 2, vrows = 2, vcols = 2,
         voxels = [[[2, 2], [2, 2]], [[2, 4], [6, 8]]]\<rparr>\<rparr>)"
  unfolding load_series_def example_sorted
  by (simp add: example_files_def init_loader_def process_data_def header_of_def
      example_ds_def np_zeros_def hu_array_def broadcast_rows_def astype_int16_def
      np_min_def np_max_def Let_def)


lemma fill_volume_shape:
  "fill_volume sl ic i dss vol hs = Inr (vol', hs') \<Longrightarrow>
     nslices vol' = nslices vol \<and> vrows vol' = vrows vol \<and> vcols vol' = vcols vol
     \<and> length (voxels vol') = length (voxels vol)"
proof (induction dss arbitrary: i vol hs)
  case Nil
  then show ?case by simp
next
  case (Cons ds dss)
  from Cons.prems obtain pa rs where
    pa: "pixel_array ds = Inr pa"
    and rs: "broadcast_rows (vrows vol) (vcols vol) (hu_array sl ic pa) = Inr rs"
    and rest: "fill_volume sl ic (Suc i) dss (vol\<lparr>voxels := (voxels vol)[i := rs]\<rparr>)
                 (hs @ [concat (cells (hu_array sl ic pa))]) = Inr (vol', hs')"
    by (auto simp add: Let_def split: sum.splits)
  from Cons.IH [OF rest] show ?case by simp
qed

lemma fill_volume_earlier:
  "fill_volume sl ic i dss vol hs = Inr (vol', hs') \<Longrightarrow> j < i \<Longrightarrow>
     voxels vol' ! j = voxels vol ! j"
proof (induction dss arbitrary: i vol hs)
  case Nil
  then show ?case by simp
next
  case (Cons ds dss)
  from Cons.prems(1) obtain pa rs where
    rest: "fill_volume sl ic (Suc i) dss (vol\<lparr>voxels := (voxels vol)[i := rs]\<rparr>)
                 (hs @ [concat (cells (hu_array sl ic pa))]) = Inr (vol', hs')"
    by (auto simp add: Let_def split: sum.splits)
  from Cons.IH [OF rest] Cons.prems(2) show ?case by simp
qed

lemma fill_volume_slices:
  "fill_volume sl ic i dss vol hs = Inr (vol', hs') \<Longrightarrow>
     i + length dss \<le> length (voxels vol) \<Longrightarrow> k < length dss \<Longrightarrow>
     \<exists>pa. pixel_array (dss ! k) = Inr pa
        \<and> broadcast_rows (vrows vol) (vcols vol) (hu_array sl ic pa) = Inr (voxels vol' ! (i + k))"
proof (induction dss arbitrary: i vol hs k)
  case Nil
  then show ?case by simp
next
  case (Cons ds dss)
  from Cons.prems(1) obtain pa rs where
    pa: "pixel_array ds = Inr pa"
    and rs: "broadcast_rows (vrows vol) (vcols vol) (hu_array sl ic pa) = Inr rs"
    and rest: "fill_volume sl ic (Suc i) dss (vol\<lparr>voxels := (voxels vol)[i := rs]\<rparr>)
                 (hs @ [concat (cells (hu_array sl ic pa))]) = Inr (vol', hs')"
    by (auto simp add: Let_def split: sum.splits)
  show ?case
  proof (cases k)
    case 0
    have "voxels vol' ! i = (voxels vol)[i := rs] ! i"
      using fill_volume_earlier [OF rest, of i] by simp
    also have "\<dots> = rs" using Cons.prems(2) by simp
    finally show ?thesis using 0 pa rs by simp
  next
    case (Suc k')
    have len: "Suc i + length dss \<le> length (voxels (vol\<lparr>voxels := (voxels vol)[i := rs]\<rparr>))"
      using Cons.prems(2) by simp
    have k': "k' < length dss" using Cons.prems(3) Suc by simp
    from Cons.IH [OF rest len k'] show ?thesis using Suc by simp
  qed
qed


lemma process_data_failure_unloaded:
  assumes "process_data s dss = (Some e, s')" and "e \<noteq> EmptyReduction"
  shows "is_loaded s' = is_loaded s"
proof (cases dss)
  case Nil
  then show ?thesis using assms by (simp add: process_data_def)
next
  case (Cons ds0 rest)
  show ?thesis
    using assms unfolding Cons process_data_def Let_def np_min_def np_max_def
    by (auto split: sum.splits prod.splits if_splits list.splits)
qed

lemma np_index_valid: "k < n \<Longrightarrow> np_index n (int k) = Inr k"
  by (simp add: np_index_def)

lemma process_data_success:
  assumes "process_data s (ds0 # rest) = (None, s')"
  shows "\<exists>vol hs. fill_volume (RescaleSlope (header_of ds0)) (RescaleIntercept (header_of ds0)) 0
            (ds0 # rest)
            (np_zeros (length (ds0 # rest)) (Rows (header_of ds0)) (Columns (header_of ds0))) []
              = Inr (vol, hs)
          \<and> is_loaded s' \<and> full_hu_volume s' = Some vol
          \<and> (\<exists>info. header_info s' = Some info \<and> NumSlices info = length (ds0 # rest)
                \<and> Rows info = Rows (header_of ds0) \<and> Columns info = Columns (header_of ds0))"
  using assms unfolding process_data_def Let_def
  by (auto split: sum.splits prod.splits if_splits)

text \<open>
  Claim C2, as the code has it. When the builder accepts a non-empty image sequence,
  every index \<open>k\<close> of the sequence is a valid depth index, the \<open>k\<close>-th image has a
  sample matrix, and the Axial reslice at \<open>k\<close> is that matrix, read as signed 16-bit
  numbers and transformed elementwise as \<open>raw * slope + intercept\<close> with the slope and
  intercept of the first image of the sequence (not the image's own), then broadcast to
  the (Rows, Columns) of the first image; it is the transformed matrix itself when the
  image has that shape.
\<close>

theorem depth_slice_uses_first_image_calibration:
  assumes "process_data s (ds0 # rest) = (None, s')"
    and "k < length (ds0 # rest)"
  shows "\<exists>pa rs. pixel_array ((ds0 # rest) ! k) = Inr pa
       \<and> broadcast_rows (Rows (header_of ds0)) (Columns (header_of ds0))
            (hu_array (RescaleSlope (header_of ds0)) (RescaleIntercept (header_of ds0)) pa)
            = Inr rs
       \<and> get_slice_data s' ''Axial'' (int k)
            = Inr (Some \<lparr>nrows = Rows (header_of ds0), ncols = Columns (header_of ds0),
                          cells = rs\<rparr>)
       \<and> (nrows pa = Rows (header_of ds0) \<and> ncols pa = Columns (header_of ds0) \<longrightarrow>
            rs = map (map (\<lambda>raw. real_of_int (astype_int16 raw) * RescaleSlope (header_of ds0)
                                    + RescaleIntercept (header_of ds0))) (cells pa))"
proof -
  let ?R = "Rows (header_of ds0)" and ?C = "Columns (header_of ds0)"
  let ?sl = "RescaleSlope (header_of ds0)" and ?ic = "RescaleIntercept (header_of ds0)"
  let ?z = "np_zeros (length (ds0 # rest)) ?R ?C"
  from process_data_success [OF assms(1)] obtain vol hs where
    fill: "fill_volume ?sl ?ic 0 (ds0 # rest) ?z [] = Inr (vol, hs)"
    and loaded: "is_loaded s'" and vol: "full_hu_volume s' = Some vol"
    by blast
  have z: "vrows ?z = ?R" "vcols ?z = ?C" "nslices ?z = length (ds0 # rest)"
    "length (voxels ?z) = length (ds0 # rest)"
    by (simp_all add: np_zeros_def)
  from fill_volume_shape [OF fill] z
  have shape: "nslices vol = length (ds0 # rest)" "vrows vol = ?R" "vcols vol = ?C"
    by simp_all
  have "0 + length (ds0 # rest) \<le> length (voxels ?z)" using z(4) by simp
  from fill_volume_slices [OF fill this assms(2)] obtain pa where
    pa: "pixel_array ((ds0 # rest) ! k) = Inr pa"
    and rs: "broadcast_rows ?R ?C (hu_array ?sl ?ic pa) = Inr (voxels vol ! k)"
    unfolding z by auto
  have idx: "np_index (nslices vol) (int k) = Inr k"
    using assms(2) shape(1) by (simp add: np_index_valid)
  have slice: "get_slice_data s' ''Axial'' (int k)
      = Inr (Some \<lparr>nrows = ?R, ncols = ?C, cells = voxels vol ! k\<rparr>)"
    using loaded vol idx shape by (simp add: get_slice_data_def)
  have same: "nrows pa = ?R \<and> ncols pa = ?C \<longrightarrow>
      voxels vol ! k = map (map (\<lambda>raw. real_of_int (astype_int16 raw) * ?sl + ?ic)) (cells pa)"
    using rs by (auto simp add: broadcast_rows_def hu_array_def)
  show ?thesis using pa rs slice same by blast
qed

lemma example_loaded_state:
  "example_loaded =
     \<lparr>series_data = [],
      header_info = Some \<lparr>Rows = 2, Columns = 2, SliceThickness = 2, PixelSpacing = [1/2, 1],
        NumSlices = 2, RescaleIntercept = 0, RescaleSlope = 2,
        MinHU = Some 2, MaxHU = Some 8\<rparr>,
      is_loaded = True,
      full_hu_volume = Some \<lparr>nslices = 2, vrows = 2, vcols = 2,
        voxels = [[[2, 2], [2, 2]], [[2, 4], [6, 8]]]\<rparr>\<rparr>"
  by (simp add: example_loaded_def example_loaded_value)

lemma example_series_accepted:
  "process_data init_loader (example_series ! 0 # [example_series ! 1]) = (None, example_loaded)"
  unfolding example_loaded_state
  by (simp add: example_series_def init_loader_def process_data_def header_of_def
      example_ds_def np_zeros_def hu_array_def broadcast_rows_def astype_int16_def
      np_min_def np_max_def Let_def)

theorem depth_slice_uses_first_image_calibration_witness:
  "process_data init_loader (example_series ! 0 # [example_series ! 1]) = (None, example_loaded)
   \<and> get_slice_data example_loaded ''Axial'' 1
        = Inr (Some \<lparr>nrows = 2, ncols = 2, cells = [[2, 4], [6, 8]]\<rparr>)"
proof -
  have k: "1 < length (example_series ! 0 # [example_series ! 1])" by simp
  from depth_slice_uses_first_image_calibration [OF example_series_accepted k]
  obtain pa rs where
    pa: "pixel_array ((example_series ! 0 # [example_series ! 1]) ! 1) = Inr pa"
    and sl: "get_slice_data example_loaded ''Axial'' (int 1)
      = Inr (Some \<lparr>nrows = Rows (header_of (example_series ! 0)),
                    ncols = Columns (header_of (example_series ! 0)), cells = rs\<rparr>)"
    and same: "nrows pa = Rows (header_of (example_series ! 0))
        \<and> ncols pa = Columns (header_of (example_series ! 0)) \<longrightarrow>
      rs = map (map (\<lambda>raw. real_of_int (astype_int16 raw)
                * RescaleSlope (header_of (example_series ! 0))
                + RescaleIntercept (header_of (example_series ! 0)))) (cells pa)"
    by blast
  have pa2: "nrows pa = 2" "ncols pa = 2" "cells pa = [[1, 2], [3, 4]]"
    using pa by (auto simp add: example_series_def example_ds_def)
  have h: "Rows (header_of (example_series ! 0)) = 2"
    "Columns (header_of (example_series ! 0)) = 2"
    "RescaleSlope (header_of (example_series ! 0)) = 2"
    "RescaleIntercept (header_of (example_series ! 0)) = 0"
    by (simp_all add: example_series_def example_ds_def header_of_def)
  have "rs = [[2, 4], [6, 8]]"
    using same unfolding h pa2 by (simp add: astype_int16_def)
  then show ?thesis using sl example_series_accepted unfolding h by simp
qed

text \<open>
  The claim as stated asks for the image's own calibration pair. The second image of the
  example series has slope 1 and intercept 0, the first has slope 2; the slice stored at
  depth 1 holds the samples of the second image times 2.
\<close>

theorem depth_slice_own_calibration_counterexample:
  "process_data init_loader (example_series ! 0 # [example_series ! 1]) = (None, example_loaded)
   \<and> ds_RescaleSlope (example_series ! 1) = Some 1
   \<and> ds_RescaleIntercept (example_series ! 1) = Some 0
   \<and> pixel_array (example_series ! 1) = Inr \<lparr>nrows = 2, ncols = 2, cells = [[1, 2], [3, 4]]\<rparr>
   \<and> get_slice_data example_loaded ''Axial'' 1
        \<noteq> Inr (Some (hu_array 1 0 \<lparr>nrows = 2, ncols = 2, cells = [[1, 2], [3, 4]]\<rparr>))"
proof -
  have "get_slice_data example_loaded ''Axial'' 1
      = Inr (Some \<lparr>nrows = 2, ncols = 2, cells = [[2, 4], [6, 8]]\<rparr>)"
    unfolding example_loaded_state by (simp add: get_slice_data_def np_index_def)
  moreover have "hu_array 1 0 \<lparr>nrows = 2, ncols = 2, cells = [[1, 2], [3, 4]]\<rparr>
      = \<lparr>nrows = 2, ncols = 2, cells = [[1, 2], [3, 4]]\<rparr>"
    by (simp add: hu_array_def astype_int16_def)
  ultimately show ?thesis
    using example_series_accepted by (simp add: example_series_def example_ds_def)
qed



lemma three_row_sorted:
  "sort_dicom_series three_row_files =
     example_ds ''A'' 0 1 [[1, 2], [3, 4]] # [example_ds ''A'' 1 1 [[9, 9], [9, 9], [9, 9]]]"
  by (simp add: sort_dicom_series_def main_series_def three_row_files_def read_candidate_def
      example_ds_def list_item_def series_map_get_def Let_def)



section \<open>Properties of loading\<close>

lemma load_series_resets:
  "s\<lparr>series_data := [], header_info := None, is_loaded := False, full_hu_volume := None\<rparr>
     = init_loader"
  by (simp add: init_loader_def)

lemma load_series_independent: "load_series s dcm_files = load_series init_loader dcm_files"
  unfolding load_series_def load_series_resets ..

text \<open>
  Claim C1, as the code has it. \<open>load_series\<close> clears the loader before it looks at the
  folder, so its outcome never depends on what was loaded before: a failed load does not
  keep the previous volume. When no file is found or no series is resolved the loader is
  left in its initial empty state; in every failure other than an empty min/max reduction
  the loader is left unloaded, where \<open>get_slice_data\<close> returns None and
  \<open>get_aspect_ratio\<close> returns 1.0. Either the whole new volume becomes visible or
  none.
\<close>

theorem failed_load_discards_previous_volume:
  assumes "load_series s dcm_files = (msg, False, s')"
  shows "load_series s dcm_files = load_series init_loader dcm_files
       \<and> (dcm_files = [] \<or> sort_dicom_series dcm_files = [] \<longrightarrow> s' = init_loader)
       \<and> (msg \<noteq> ConversionFailed EmptyReduction \<longrightarrow>
            \<not> is_loaded s' \<and> get_slice_data s' view_plane index = Inr None
            \<and> get_aspect_ratio s' view_plane = Inr 1)"
proof -
  have a: "load_series init_loader dcm_files = (msg, False, s')"
    using assms load_series_independent [of s dcm_files] by simp
  have empty: "dcm_files = [] \<or> sort_dicom_series dcm_files = [] \<longrightarrow> s' = init_loader"
    using a by (auto simp add: load_series_def Let_def load_series_resets split: if_splits)
  have unloaded: "\<not> is_loaded s'" if m: "msg \<noteq> ConversionFailed EmptyReduction"
  proof (cases "dcm_files = [] \<or> sort_dicom_series dcm_files = []")
    case True
    then show ?thesis using empty by (simp add: init_loader_def)
  next
    case False
    obtain r s1 where p: "process_data init_loader (sort_dicom_series dcm_files) = (r, s1)"
      by (cases "process_data init_loader (sort_dicom_series dcm_files)")
    show ?thesis
    proof (cases r)
      case None
      then show ?thesis
        using a False p by (auto simp add: load_series_def Let_def load_series_resets
            split: if_splits)
    next
      case (Some e)
      then have "msg = ConversionFailed e" "s' = s1"
        using a False p by (auto simp add: load_series_def Let_def load_series_resets
            split: if_splits)
      then have "e \<noteq> EmptyReduction" using m by simp
      from process_data_failure_unloaded [OF p [unfolded Some] this]
      show ?thesis using \<open>s' = s1\<close> by (simp add: init_loader_def)
    qed
  qed
  show ?thesis
    using load_series_independent [of s dcm_files] empty unloaded
    by (simp add: get_slice_data_def get_aspect_ratio_def)
qed

lemma three_row_load:
  "load_series init_loader three_row_files =
     (ConversionFailed BroadcastError, False,
      \<lparr>series_data = [],
       header_info = Some \<lparr>Rows = 2, Columns = 2, SliceThickness = 2, PixelSpacing = [1/2, 1],
         NumSlices = 0, RescaleIntercept = 0, RescaleSlope = 1,
         MinHU = None, MaxHU = None\<rparr>,
       is_loaded = False,
       full_hu_volume = Some \<lparr>nslices = 2, vrows = 2, vcols = 2,
         voxels = [[[1, 2], [3, 4]], [[0, 0], [0, 0]]]\<rparr>\<rparr>)"
  unfolding load_series_def three_row_sorted
  by (simp add: three_row_files_def init_loader_def process_data_def header_of_def
      example_ds_def np_zeros_def hu_array_def broadcast_rows_def astype_int16_def Let_def)

theorem failed_load_discards_previous_volume_witness:
  "load_series example_loaded [] = (NoFilesFound, False, init_loader)
   \<and> \<not> is_loaded init_loader
   \<and> get_slice_data init_loader ''Axial'' 0 = Inr None
   \<and> get_aspect_ratio init_loader ''Axial'' = Inr 1
   \<and> fst (load_series example_loaded three_row_files) = ConversionFailed BroadcastError
   \<and> \<not> is_loaded (snd (snd (load_series example_loaded three_row_files)))
   \<and> get_slice_data (snd (snd (load_series example_loaded three_row_files))) ''Axial'' 0
        = Inr None"
proof -
  have l: "load_series example_loaded [] = (NoFilesFound, False, init_loader)"
    by (simp add: load_series_def load_series_resets)
  obtain s' where t: "load_series example_loaded three_row_files
      = (ConversionFailed BroadcastError, False, s')"
    using load_series_independent [of example_loaded three_row_files] three_row_load by simp
  have n: "NoFilesFound \<noteq> ConversionFailed EmptyReduction"
    and m: "ConversionFailed BroadcastError \<noteq> ConversionFailed EmptyReduction"
    by simp_all
  from failed_load_discards_previous_volume [OF l, of "''Axial''" 0] n
  have u0: "\<not> is_loaded init_loader \<and> get_slice_data init_loader ''Axial'' 0 = Inr None
      \<and> get_aspect_ratio init_loader ''Axial'' = Inr 1"
    by blast
  from failed_load_discards_previous_volume [OF t, of "''Axial''" 0] m
  have u1: "\<not> is_loaded s' \<and> get_slice_data s' ''Axial'' 0 = Inr None"
    by blast
  show ?thesis unfolding t using l u0 u1 by simp
qed

text \<open>
  The claim as stated asks that a failed load leaves the previous volume untouched. The
  loader that holds the volume of \<open>example_files\<close> is asked to load an empty folder:
  the load fails and the volume is gone.
\<close>

theorem failed_load_keeps_volume_counterexample:
  "is_loaded example_loaded
   \<and> get_slice_data example_loaded ''Axial'' 0
        = Inr (Some \<lparr>nrows = 2, ncols = 2, cells = [[2, 2], [2, 2]]\<rparr>)
   \<and> fst (snd (load_series example_loaded [])) = False
   \<and> full_hu_volume (snd (snd (load_series example_loaded []))) = None
   \<and> full_hu_volume (snd (snd (load_series example_loaded []))) \<noteq> full_hu_volume example_loaded
   \<and> get_slice_data (snd (snd (load_series example_loaded []))) ''Axial'' 0 = Inr None"
proof -
  have l: "load_series example_loaded [] = (NoFilesFound, False, init_loader)"
    by (simp add: load_series_def load_series_resets)
  show ?thesis
    unfolding l unfolding example_loaded_state
    by (simp add: init_loader_def get_slice_data_def np_index_def)
qed

end
